theory Spec2Isabelle
  imports Main "HOL-Library.Sublist" "HOL-Library.AList"
begin

section \<open>clib-search: strings and the C library\<close>

text \<open>
  The program is \<^verbatim>\<open>src/clib-search.c\<close>. It works on C strings (\<^verbatim>\<open>char *\<close>): a pointer is
  either NULL or the address of a string in memory. Strings are \<^typ>\<open>string\<close> (a list of
  bytes); memory is the store of the second section.
\<close>

text \<open>
  Modelled from the spec: \<^verbatim>\<open>case_lower\<close> of \<^verbatim>\<open>case/case.h\<close> is not under src/. The spec
  says that query terms and field values are lowercased and that matching is
  case-insensitive; the model lowercases the ASCII letters \<^verbatim>\<open>A\<close>..\<^verbatim>\<open>Z\<close> (bytes 65..90) and
  leaves every other byte as it is. \<open>case_upper\<close> is its counterpart on \<^verbatim>\<open>a\<close>..\<^verbatim>\<open>z\<close>
  (bytes 97..122): the uppercased form of a query term.
\<close>

definition lower_char :: "char \<Rightarrow> char" where
  "lower_char c =
     (let n = (of_char c :: nat) in if 65 \<le> n \<and> n \<le> 90 then char_of (n + 32) else c)"

definition upper_char :: "char \<Rightarrow> char" where
  "upper_char c =
     (let n = (of_char c :: nat) in if 97 \<le> n \<and> n \<le> 122 then char_of (n - 32) else c)"

definition case_lower :: "string \<Rightarrow> string" where
  "case_lower str = map lower_char str"

definition case_upper :: "string \<Rightarrow> string" where
  "case_upper str = map upper_char str"

text \<open>
  \<^verbatim>\<open>strstr(haystack, needle)\<close> of the C library: a pointer to the first occurrence of
  \<open>needle\<close> in \<open>haystack\<close>, or NULL. The result is the rest of the haystack from that
  occurrence on; the empty needle occurs at once.
\<close>

fun strstr :: "string \<Rightarrow> string \<Rightarrow> string option" where
  "strstr [] needle = (if needle = [] then Some [] else None)"
| "strstr (c # cs) needle =
     (if prefix needle (c # cs) then Some (c # cs) else strstr cs needle)"

section \<open>Memory\<close>

text \<open>
  \<open>matches\<close> lowercases strings in place, so the model keeps the strings in a store:
  \<open>cells\<close> holds the string at each live address and \<open>brk\<close> is the next address
  \<open>malloc\<close> hands out. A pointer is \<open>None\<close> for NULL. Allocation never fails in the model
  (a failed \<^verbatim>\<open>malloc\<close> is left out).
\<close>

type_synonym ptr = "nat option"

record heap =
  cells :: "nat \<Rightarrow> string option"
  brk :: nat

text \<open>
  \<open>load\<close> reads the string a pointer leads to: nothing for NULL, and nothing for an
  address that holds no live string (C leaves that read undefined). \<open>deref\<close> reads at an
  address known to be live; \<open>matches\<close> uses it on its own fresh copies only.
\<close>

definition load :: "heap \<Rightarrow> ptr \<Rightarrow> string option" where
  "load h p = (case p of None \<Rightarrow> None | Some a \<Rightarrow> cells h a)"

definition deref :: "heap \<Rightarrow> nat \<Rightarrow> string" where
  "deref h a = (case cells h a of None \<Rightarrow> [] | Some s \<Rightarrow> s)"

text \<open>
  \<open>alloc\<close> is \<^verbatim>\<open>malloc\<close> and the copy into the new block: the string goes to the address
  \<open>brk\<close>, which no earlier pointer holds, and \<open>brk\<close> moves on. \<open>free\<close> ends the life of
  a block and does nothing for NULL.
\<close>

definition grow :: "heap \<Rightarrow> string \<Rightarrow> heap" where
  "grow h s = h\<lparr>cells := (cells h)(brk h \<mapsto> s), brk := Suc (brk h)\<rparr>"

definition alloc :: "heap \<Rightarrow> string \<Rightarrow> ptr \<times> heap" where
  "alloc h s = (Some (brk h), grow h s)"

text \<open>
  Modelled from the spec: \<^verbatim>\<open>strdup\<close> of \<^verbatim>\<open>strdup/strdup.h\<close> is not under src/. It copies
  the string into a fresh allocation. The spec has an absent field value reach the match
  as a hard non-match, which is the NULL test of \<open>COMPARE\<close> on the copy: a NULL argument
  gives NULL.
\<close>

definition strdup :: "heap \<Rightarrow> ptr \<Rightarrow> ptr \<times> heap" where
  "strdup h str = (case load h str of None \<Rightarrow> (None, h) | Some s \<Rightarrow> alloc h s)"

definition free :: "heap \<Rightarrow> ptr \<Rightarrow> heap" where
  "free h p = (case p of None \<Rightarrow> h | Some a \<Rightarrow> h\<lparr>cells := (cells h)(a := None)\<rparr>)"

text \<open>\<^verbatim>\<open>case_lower(v)\<close> on a string in memory: the string at \<open>a\<close> is overwritten.\<close>

definition case_lower_mem :: "heap \<Rightarrow> nat \<Rightarrow> heap" where
  "case_lower_mem h a = h\<lparr>cells := (cells h)(a := map_option case_lower (cells h a))\<rparr>"

section \<open>Package records\<close>

text \<open>
  A \<^verbatim>\<open>wiki_package_ptr_t\<close> is read through four getters only, each returning a
  \<^verbatim>\<open>char *\<close>; the record's fields are the getters' results.
\<close>

record wiki_package =
  wiki_package_get_repo :: ptr
  wiki_package_get_href :: ptr
  wiki_package_get_description :: ptr
  wiki_package_get_category :: ptr

text \<open>
  \<^verbatim>\<open>clib_package_parse_name\<close> (\<^verbatim>\<open>common/clib-package.h\<close>) is not under src/. It returns
  the short name of a repo slug as a string of its own (\<open>matches\<close> frees it), or NULL.
  Which string it computes is the parameter \<open>pn\<close>, from the slug (or NULL) to the name
  (or NULL).
\<close>

definition clib_package_parse_name ::
  "(string option \<Rightarrow> string option) \<Rightarrow> heap \<Rightarrow> ptr \<Rightarrow> ptr \<times> heap" where
  "clib_package_parse_name pn h slug =
     (case pn (load h slug) of None \<Rightarrow> (None, h) | Some n \<Rightarrow> alloc h n)"

text \<open>
  Modelled from the spec: the string function behind \<^verbatim>\<open>clib_package_parse_name\<close>, which
  is not under src/. The spec: given \<^verbatim>\<open>owner/name\<close> (or a bare \<^verbatim>\<open>name\<close>) it extracts the
  short name, and returns the repo string unchanged when there is no separator. It is
  used for concrete inputs only.
\<close>

definition short_name :: "string option \<Rightarrow> string option" where
  "short_name slug =
     (case slug of None \<Rightarrow> None
      | Some s \<Rightarrow>
          Some (if CHR ''/'' \<in> set s then tl (dropWhile (\<lambda>c. c \<noteq> CHR ''/'') s) else s))"

section \<open>The matcher\<close>

text \<open>
  The \<^verbatim>\<open>for\<close> loop of the macro \<open>COMPARE\<close>: \<open>rc\<close> becomes 1 at the first argument that
  \<^verbatim>\<open>strstr\<close> finds in \<open>v\<close>, and the loop ends there; otherwise \<open>rc\<close> is left as it was.
\<close>

fun COMPARE_for :: "string \<Rightarrow> string list \<Rightarrow> int \<Rightarrow> int" where
  "COMPARE_for v [] rc = rc"
| "COMPARE_for v (arg # args) rc =
     (if strstr v arg \<noteq> None then 1 else COMPARE_for v args rc)"

text \<open>
  The macro either jumps to \<^verbatim>\<open>cleanup\<close> with \<open>rc = 0\<close> (\<open>v\<close> is NULL) or falls through
  to the next statement with the \<open>rc\<close> its loop leaves.
\<close>

datatype flow = Goto_cleanup int heap | Fall_through int heap

definition COMPARE :: "heap \<Rightarrow> ptr \<Rightarrow> string list \<Rightarrow> int \<Rightarrow> flow" where
  "COMPARE h v args rc =
     (case v of
        None \<Rightarrow> Goto_cleanup 0 h
      | Some a \<Rightarrow>
          (let h' = case_lower_mem h a
           in Fall_through (COMPARE_for (deref h' a) args rc) h'))"

text \<open>
  The label \<^verbatim>\<open>cleanup\<close>: the four locals are freed (each is NULL until \<open>matches\<close> has
  assigned it) and \<open>rc\<close> is returned.
\<close>

definition cleanup :: "heap \<Rightarrow> ptr \<Rightarrow> ptr \<Rightarrow> ptr \<Rightarrow> ptr \<Rightarrow> int \<Rightarrow> int \<times> heap" where
  "cleanup h description name repo href rc =
     (rc, free (free (free (free h description) name) repo) href)"

text \<open>
  \<^verbatim>\<open>matches(count, args, pkg)\<close>: \<open>count\<close> is the length of \<open>args\<close>. The result is the
  returned \<^verbatim>\<open>int\<close> and the memory after the call.
\<close>

definition matches ::
  "(string option \<Rightarrow> string option) \<Rightarrow> heap \<Rightarrow> string list \<Rightarrow> wiki_package \<Rightarrow> int \<times> heap" where
  "matches pn h0 args pkg =
     (if length args = 0 then (1, h0)
      else
        (let (name, h1) = clib_package_parse_name pn h0 (wiki_package_get_repo pkg) in
         (case COMPARE h1 name args 0 of
            Goto_cleanup rc h \<Rightarrow> cleanup h None name None None rc
          | Fall_through rc1 h2 \<Rightarrow>
        (let (description, h3) = strdup h2 (wiki_package_get_description pkg) in
         (case COMPARE h3 description args rc1 of
            Goto_cleanup rc h \<Rightarrow> cleanup h description name None None rc
          | Fall_through rc2 h4 \<Rightarrow>
        (let (repo, h5) = strdup h4 (wiki_package_get_repo pkg) in
         (case COMPARE h5 repo args rc2 of
            Goto_cleanup rc h \<Rightarrow> cleanup h description name repo None rc
          | Fall_through rc3 h6 \<Rightarrow>
        (let (href, h7) = strdup h6 (wiki_package_get_href pkg) in
         (case COMPARE h7 href args rc3 of
            Goto_cleanup rc h \<Rightarrow> cleanup h description name repo href rc
          | Fall_through rc4 h8 \<Rightarrow> cleanup h8 description name repo href rc4)))))))))"

text \<open>
  The four values \<open>matches\<close> hands to \<open>COMPARE\<close>, in the order of the calls: the short
  name derived from the repo, the description, the repo, the href.
\<close>

definition scanned ::
  "(string option \<Rightarrow> string option) \<Rightarrow> heap \<Rightarrow> wiki_package \<Rightarrow> string option list" where
  "scanned pn h pkg =
     [pn (load h (wiki_package_get_repo pkg)), load h (wiki_package_get_description pkg),
      load h (wiki_package_get_repo pkg), load h (wiki_package_get_href pkg)]"

text \<open>
  What \<open>matches\<close> returns for a non-empty \<open>args\<close>, read off the scanned values alone:
  the first absent value ends the scan with 0, and a present one runs the loop of
  \<open>COMPARE\<close> on its lowercased copy. Lemma \<open>matches_result\<close> proves that \<open>matches\<close>
  computes it.
\<close>

fun scan :: "string list \<Rightarrow> int \<Rightarrow> string option list \<Rightarrow> int" where
  "scan args rc [] = rc"
| "scan args rc (None # vs) = 0"
| "scan args rc (Some v # vs) = scan args (COMPARE_for (case_lower v) args rc) vs"

text \<open>
  A package's strings were allocated before \<open>matches\<close> is called: each of its pointers
  is NULL or an address below \<open>brk\<close>.
\<close>

definition allocated :: "heap \<Rightarrow> ptr \<Rightarrow> bool" where
  "allocated h p = (case p of None \<Rightarrow> True | Some a \<Rightarrow> a < brk h)"

definition wf_pkg :: "heap \<Rightarrow> wiki_package \<Rightarrow> bool" where
  "wf_pkg h pkg =
     (allocated h (wiki_package_get_repo pkg) \<and> allocated h (wiki_package_get_href pkg) \<and>
      allocated h (wiki_package_get_description pkg) \<and>
      allocated h (wiki_package_get_category pkg))"

text \<open>\<open>preserves h h'\<close>: every address allocated in \<open>h\<close> holds in \<open>h'\<close> what it held in \<open>h\<close>.\<close>

definition preserves :: "heap \<Rightarrow> heap \<Rightarrow> bool" where
  "preserves h h' = (brk h \<le> brk h' \<and> (\<forall>a<brk h. cells h' a = cells h a))"

text \<open>The memory that holds the given strings at the addresses 0, 1, 2, ...\<close>

definition heap_of :: "string list \<Rightarrow> heap" where
  "heap_of xs = \<lparr>cells = (\<lambda>a. if a < length xs then Some (xs ! a) else None), brk = length xs\<rparr>"

section \<open>Rendering\<close>

text \<open>
  Standard output is the sequence of the calls that write to it. \<^verbatim>\<open>cc_fprintf\<close>
  (\<^verbatim>\<open>console-colors\<close>) writes a text in a foreground colour; the serialiser of the JSON
  library (\<^verbatim>\<open>parson\<close>) is not modelled, so \<open>Puts_pretty v\<close> stands for
  \<^verbatim>\<open>puts(json_serialize_to_string_pretty(v))\<close>: the pretty-printed text of \<open>v\<close> and a
  newline.
\<close>

datatype cc_color_t = CC_FG_NONE | CC_FG_DARK_CYAN | CC_FG_DARK_GRAY

datatype JSON_Value =
  JSONString string
| JSONObject "(string \<times> JSON_Value) list"
| JSONArray "JSON_Value list"

datatype stdout_call = Printf string | Cc_fprintf cc_color_t string | Puts_pretty JSON_Value

text \<open>
  The text \<^verbatim>\<open>%s\<close> formats. C leaves a NULL argument undefined; glibc prints
  \<^verbatim>\<open>(null)\<close>, and so does the model.
\<close>

definition printf_s :: "string option \<Rightarrow> string" where
  "printf_s str = (case str of None \<Rightarrow> ''(null)'' | Some s \<Rightarrow> s)"

definition display_package :: "heap \<Rightarrow> wiki_package \<Rightarrow> cc_color_t \<Rightarrow> cc_color_t \<Rightarrow> stdout_call list" where
  "display_package h pkg fg_color_highlight fg_color_text =
     [Cc_fprintf fg_color_highlight
        (''  '' @ printf_s (load h (wiki_package_get_repo pkg)) @ ''\<newline>''),
      Printf ''  url: '',
      Cc_fprintf fg_color_text (printf_s (load h (wiki_package_get_href pkg)) @ ''\<newline>''),
      Printf ''  desc: '',
      Cc_fprintf fg_color_text
        (printf_s (load h (wiki_package_get_description pkg)) @ ''\<newline>''),
      Printf ''\<newline>'']"

text \<open>
  Modelled from the spec: \<^verbatim>\<open>json_object_set_string\<close> of \<^verbatim>\<open>parson/parson.h\<close> is not under
  src/. The spec treats the library as a generic builder and says that every key holds a
  string, the empty string for an absent value. An object is the list of its members in
  the order they were set.
\<close>

definition json_object_set_string ::
  "(string \<times> JSON_Value) list \<Rightarrow> string \<Rightarrow> string option \<Rightarrow> (string \<times> JSON_Value) list" where
  "json_object_set_string object name str =
     AList.update name (JSONString (case str of None \<Rightarrow> [] | Some s \<Rightarrow> s)) object"

text \<open>The object \<open>add_package_to_json\<close> builds (lines 135 to 141), then the append.\<close>

definition json_pkg :: "heap \<Rightarrow> wiki_package \<Rightarrow> (string \<times> JSON_Value) list" where
  "json_pkg h pkg =
     json_object_set_string
       (json_object_set_string
          (json_object_set_string
             (json_object_set_string [] ''repo'' (load h (wiki_package_get_repo pkg)))
             ''href'' (load h (wiki_package_get_href pkg)))
          ''description'' (load h (wiki_package_get_description pkg)))
       ''category'' (load h (wiki_package_get_category pkg))"

definition add_package_to_json :: "heap \<Rightarrow> wiki_package \<Rightarrow> JSON_Value list \<Rightarrow> JSON_Value list" where
  "add_package_to_json h pkg json_list = json_list @ [JSONObject (json_pkg h pkg)]"

section \<open>Options\<close>

record options =
  opt_color :: int
  opt_cache :: int
  opt_json :: int

definition setopt_nocolor :: "options \<Rightarrow> options" where
  "setopt_nocolor opts = opts\<lparr>opt_color := 0\<rparr>"

definition setopt_nocache :: "options \<Rightarrow> options" where
  "setopt_nocache opts = opts\<lparr>opt_cache := 0\<rparr>"

definition setopt_json :: "options \<Rightarrow> options" where
  "setopt_json opts = opts\<lparr>opt_json := 1\<rparr>"

text \<open>
  The three statics start at 0 (C initialises a static \<^verbatim>\<open>int\<close> so); \<open>main\<close> sets two of
  them before it parses the command line.
\<close>

definition static_options :: options where
  "static_options = \<lparr>opt_color = 0, opt_cache = 0, opt_json = 0\<rparr>"

text \<open>
  Modelled from the spec: \<^verbatim>\<open>command_parse\<close> of \<^verbatim>\<open>commander/commander.h\<close> is not under
  src/. The spec treats it as a black box that yields the option set and the positional
  query terms: it calls the callback registered for each flag on the command line, in
  order, and leaves the positional arguments in \<^verbatim>\<open>program.argv\<close>.
\<close>

datatype flag = Flag_n | Flag_c | Flag_j

fun callback :: "flag \<Rightarrow> options \<Rightarrow> options" where
  "callback Flag_n = setopt_nocolor"
| "callback Flag_c = setopt_nocache"
| "callback Flag_j = setopt_json"

definition command_parse :: "flag list \<Rightarrow> options \<Rightarrow> options" where
  "command_parse flags opts = fold callback flags opts"

text \<open>The options of a run: lines 147, 148 and 167 of \<open>main\<close>.\<close>

definition run_options :: "flag list \<Rightarrow> options" where
  "run_options flags = command_parse flags (static_options\<lparr>opt_color := 1, opt_cache := 1\<rparr>)"

section \<open>The cache of the wiki page\<close>

text \<open>
  \<open>wiki_html_cache\<close> talks to the cache (\<^verbatim>\<open>common/clib-cache.h\<close>) and to the network
  (\<^verbatim>\<open>http-get/http-get.h\<close>). What they answer is the environment; the result is the
  returned string (or NULL) and the calls made, in order.
\<close>

record environment =
  clib_cache_has_search :: bool
  clib_cache_read_search :: "string option"
  http_ok :: bool
  http_data :: "string option"

datatype call =
  Clib_cache_has_search
| Clib_cache_read_search
| Http_get
| Clib_cache_save_search string

text \<open>
  The live fetch, lines 105 to 119: after the calls made so far, \<^verbatim>\<open>http_get\<close>; when the
  response is not ok, or holds no data to copy, the result is NULL and nothing is saved;
  otherwise the copy of the data is saved to the cache and returned. The \<^verbatim>\<open>debug\<close> lines
  are left out.
\<close>

definition wiki_html_fetch :: "environment \<Rightarrow> call list \<Rightarrow> string option \<times> call list" where
  "wiki_html_fetch env calls =
     (if \<not> http_ok env then (None, calls @ [Http_get])
      else
        (case http_data env of
           None \<Rightarrow> (None, calls @ [Http_get])
         | Some html \<Rightarrow> (Some html, calls @ [Http_get, Clib_cache_save_search html])))"

definition wiki_html_cache :: "options \<Rightarrow> environment \<Rightarrow> string option \<times> call list" where
  "wiki_html_cache opts env =
     (if clib_cache_has_search env \<and> opt_cache opts \<noteq> 0 then
        (case clib_cache_read_search env of
           Some data \<Rightarrow> (Some data, [Clib_cache_has_search, Clib_cache_read_search])
         | None \<Rightarrow> wiki_html_fetch env [Clib_cache_has_search, Clib_cache_read_search])
      else wiki_html_fetch env [Clib_cache_has_search])"

section \<open>The run\<close>

text \<open>
  Modelled from the spec: the registry client (\<^verbatim>\<open>wiki-registry/wiki-registry.h\<close>) is not
  under src/. The spec: the fetch retrieves and parses the list or fails, and the
  iterator yields the parsed records in the registry's order. \<open>fetch_ok\<close> is the outcome
  of \<^verbatim>\<open>wiki_registry_fetch\<close>; \<open>packages\<close> is what the iterator yields after it.
\<close>

record registry =
  fetch_ok :: bool
  packages :: "wiki_package list"

text \<open>
  The \<^verbatim>\<open>while\<close> loop of \<open>main\<close> over the iterator. The state is the memory, the standard
  output so far and the JSON array (which \<open>main\<close> creates in JSON mode only and touches in
  JSON mode only).
\<close>

fun iterate ::
  "(string option \<Rightarrow> string option) \<Rightarrow> options \<Rightarrow> string list \<Rightarrow> cc_color_t \<Rightarrow> cc_color_t \<Rightarrow>
   wiki_package list \<Rightarrow> heap \<times> stdout_call list \<times> JSON_Value list \<Rightarrow> heap \<times> stdout_call list \<times> JSON_Value list" where
  "iterate pn opts args fg_color_highlight fg_color_text [] st = st"
| "iterate pn opts args fg_color_highlight fg_color_text (pkg # it) (h, out, json_list) =
     (let (rc, h') = matches pn h args pkg in
      iterate pn opts args fg_color_highlight fg_color_text it
        (if rc \<noteq> 0 then
           (if opt_json opts \<noteq> 0 then (h', out, add_package_to_json h' pkg json_list)
            else (h', out @ display_package h' pkg fg_color_highlight fg_color_text, json_list))
         else (h', out, json_list)))"

record result =
  stdout :: "stdout_call list"
  status :: int

text \<open>
  \<open>main\<close>: \<open>flags\<close> and \<open>argv\<close> are the flags and the positional arguments of the command
  line, \<open>reg\<close> the registry after the fetch, \<open>h\<close> the memory that holds the packages'
  strings. The value of \<^verbatim>\<open>wiki_registry_fetch\<close> is dropped, as in the source, and the only
  \<^verbatim>\<open>return\<close> is the last line's \<^verbatim>\<open>return 0\<close>. The \<^verbatim>\<open>debug\<close> lines (standard error, when
  enabled) and the frees at the end are left out.
\<close>

definition main ::
  "(string option \<Rightarrow> string option) \<Rightarrow> flag list \<Rightarrow> string list \<Rightarrow> registry \<Rightarrow> heap \<Rightarrow> result" where
  "main pn flags argv reg h =
     (let opts = run_options flags;
          args = map case_lower argv;
          fg_color_highlight = (if opt_color opts \<noteq> 0 then CC_FG_DARK_CYAN else CC_FG_NONE);
          fg_color_text = (if opt_color opts \<noteq> 0 then CC_FG_DARK_GRAY else CC_FG_NONE);
          (h', out, json_list) =
            iterate pn opts args fg_color_highlight fg_color_text (packages reg)
              (h, [Printf ''\<newline>''], [])
      in \<lparr>stdout = (if opt_json opts \<noteq> 0 then out @ [Puts_pretty (JSONArray json_list)] else out),
          status = 0\<rparr>)"

section \<open>Concrete inputs\<close>

text \<open>
  A memory with the strings of two packages and three package records: the record of the
  spec's scenario, a record with capital letters, and the first record
  without its description.
\<close>

definition example_heap :: heap where
  "example_heap =
     heap_of [''foo/bar'', ''https://x/bar'', ''A bar tool'', ''tools'',
              ''Foo/Baz'', ''https://x/Baz'', ''A BAZ Tool'', ''Tools'']"

definition bar_pkg :: wiki_package where
  "bar_pkg =
     \<lparr>wiki_package_get_repo = Some 0, wiki_package_get_href = Some 1,
      wiki_package_get_description = Some 2, wiki_package_get_category = Some 3\<rparr>"

definition baz_pkg :: wiki_package where
  "baz_pkg =
     \<lparr>wiki_package_get_repo = Some 4, wiki_package_get_href = Some 5,
      wiki_package_get_description = Some 6, wiki_package_get_category = Some 7\<rparr>"

definition nodesc_pkg :: wiki_package where
  "nodesc_pkg =
     \<lparr>wiki_package_get_repo = Some 0, wiki_package_get_href = Some 1,
      wiki_package_get_description = None, wiki_package_get_category = Some 3\<rparr>"

text \<open>A cache that holds an entry, and a network that answers.\<close>

definition example_env :: environment where
  "example_env =
     \<lparr>clib_cache_has_search = True, clib_cache_read_search = Some ''cached'',
      http_ok = True, http_data = Some ''live''\<rparr>"

section \<open>Lemmas\<close>

lemma strstr_None: "(strstr v needle = None) = (\<not> sublist needle v)"
  by (induction v) (auto simp: sublist_Cons_right)

lemma COMPARE_for_eq:
  "COMPARE_for v args rc = (if \<exists>a\<in>set args. sublist a v then 1 else rc)"
  by (induction args) (simp_all add: strstr_None)

lemma lower_upper_char: "lower_char (upper_char c) = lower_char c"
  by (auto simp: lower_char_def upper_char_def Let_def)

lemma case_lower_upper: "case_lower (case_upper s) = case_lower s"
  by (simp add: case_lower_def case_upper_def lower_upper_char)

lemma brk_grow: "brk (grow h s) = Suc (brk h)"
  by (simp add: grow_def)

lemma brk_free: "brk (free h p) = brk h"
  by (simp add: free_def split: option.splits)

lemma load_grow: "allocated h p \<Longrightarrow> load (grow h s) p = load h p"
  by (auto simp: allocated_def load_def grow_def split: option.splits)

lemma allocated_grow: "allocated h p \<Longrightarrow> allocated (grow h s) p"
  by (auto simp: allocated_def grow_def split: option.splits)

lemma parse_name_None:
  "pn (load h slug) = None \<Longrightarrow> clib_package_parse_name pn h slug = (None, h)"
  by (simp add: clib_package_parse_name_def)

lemma parse_name_Some:
  "pn (load h slug) = Some n \<Longrightarrow> clib_package_parse_name pn h slug = (Some (brk h), grow h n)"
  by (simp add: clib_package_parse_name_def alloc_def)

lemma strdup_None: "load h p = None \<Longrightarrow> strdup h p = (None, h)"
  by (simp add: strdup_def)

lemma strdup_Some: "load h p = Some s \<Longrightarrow> strdup h p = (Some (brk h), grow h s)"
  by (simp add: strdup_def alloc_def)

lemma COMPARE_None: "COMPARE h None args rc = Goto_cleanup 0 h"
  by (simp add: COMPARE_def)

lemma COMPARE_copy:
  "a = brk h \<Longrightarrow> COMPARE (grow h s) (Some a) args rc =
     Fall_through (COMPARE_for (case_lower s) args rc) (grow h (case_lower s))"
  by (simp add: COMPARE_def case_lower_mem_def deref_def grow_def)

lemma preserves_refl: "preserves h h"
  by (simp add: preserves_def)

lemma preserves_grow: "preserves h0 h \<Longrightarrow> preserves h0 (grow h s)"
  by (auto simp: preserves_def grow_def)

lemma preserves_free_None: "preserves h0 h \<Longrightarrow> preserves h0 (free h None)"
  by (simp add: free_def)

lemma preserves_free_Some: "preserves h0 h \<Longrightarrow> brk h0 \<le> a \<Longrightarrow> preserves h0 (free h (Some a))"
  by (auto simp: preserves_def free_def)

lemmas step_simps = parse_name_None parse_name_Some strdup_None strdup_Some COMPARE_None
  COMPARE_copy load_grow allocated_grow brk_grow brk_free cleanup_def
  preserves_refl preserves_grow preserves_free_None preserves_free_Some

lemma matches_result:
  assumes wf: "wf_pkg h pkg" and ne: "args \<noteq> []"
  shows "fst (matches pn h args pkg) = scan args 0 (scanned pn h pkg) \<and>
         preserves h (snd (matches pn h args pkg)) \<and>
         brk (snd (matches pn h args pkg)) =
           brk h + length (takeWhile (\<lambda>v. v \<noteq> None) (scanned pn h pkg))"
proof -
  from wf have a: "allocated h (wiki_package_get_repo pkg)"
    "allocated h (wiki_package_get_description pkg)" "allocated h (wiki_package_get_href pkg)"
    by (simp_all add: wf_pkg_def)
  show ?thesis
  proof (cases "pn (load h (wiki_package_get_repo pkg))")
    case None
    with ne show ?thesis by (simp add: matches_def scanned_def step_simps)
  next
    case n: (Some n)
    show ?thesis
    proof (cases "load h (wiki_package_get_description pkg)")
      case None
      with ne n a show ?thesis by (simp add: matches_def scanned_def step_simps)
    next
      case d: (Some d)
      show ?thesis
      proof (cases "load h (wiki_package_get_repo pkg)")
        case None
        with ne n d a show ?thesis by (simp add: matches_def scanned_def step_simps)
      next
        case r: (Some r)
        show ?thesis
        proof (cases "load h (wiki_package_get_href pkg)")
          case None
          with ne n d r a show ?thesis by (simp add: matches_def scanned_def step_simps)
        next
          case (Some u)
          with ne n d r a show ?thesis by (simp add: matches_def scanned_def step_simps)
        qed
      qed
    qed
  qed
qed


lemma matches_empty: "matches pn h [] pkg = (1, h)"
  by (simp add: matches_def)

lemma matches_fst:
  "wf_pkg h pkg \<Longrightarrow> args \<noteq> [] \<Longrightarrow> fst (matches pn h args pkg) = scan args 0 (scanned pn h pkg)"
  by (simp add: matches_result)

lemma matches_preserves: "wf_pkg h pkg \<Longrightarrow> preserves h (snd (matches pn h args pkg))"
  by (cases "args = []") (simp_all add: matches_empty preserves_refl matches_result)

lemma matches_brk:
  "wf_pkg h pkg \<Longrightarrow> args \<noteq> [] \<Longrightarrow>
   brk (snd (matches pn h args pkg)) =
     brk h + length (takeWhile (\<lambda>v. v \<noteq> None) (scanned pn h pkg))"
  by (simp add: matches_result)

lemma preserves_trans: "preserves h1 h2 \<Longrightarrow> preserves h2 h3 \<Longrightarrow> preserves h1 h3"
  by (auto simp: preserves_def)

lemma load_preserves: "preserves h h' \<Longrightarrow> allocated h p \<Longrightarrow> load h' p = load h p"
  by (auto simp: preserves_def allocated_def load_def split: option.splits)

lemma allocated_preserves: "preserves h h' \<Longrightarrow> allocated h p \<Longrightarrow> allocated h' p"
  by (auto simp: preserves_def allocated_def split: option.splits)

lemma wf_pkg_preserves: "preserves h h' \<Longrightarrow> wf_pkg h pkg \<Longrightarrow> wf_pkg h' pkg"
  by (simp add: wf_pkg_def allocated_preserves)

lemma scanned_preserves: "preserves h h' \<Longrightarrow> wf_pkg h pkg \<Longrightarrow> scanned pn h' pkg = scanned pn h pkg"
  by (simp add: scanned_def wf_pkg_def load_preserves)

lemma display_package_preserves:
  "preserves h h' \<Longrightarrow> wf_pkg h pkg \<Longrightarrow> display_package h' pkg hl tx = display_package h pkg hl tx"
  by (simp add: display_package_def wf_pkg_def load_preserves)

lemma json_pkg_preserves:
  "preserves h h' \<Longrightarrow> wf_pkg h pkg \<Longrightarrow> json_pkg h' pkg = json_pkg h pkg"
  by (simp add: json_pkg_def wf_pkg_def load_preserves)

lemma matches_fst_preserves:
  assumes "preserves h h'" "wf_pkg h pkg"
  shows "fst (matches pn h' args pkg) = fst (matches pn h args pkg)"
proof (cases "args = []")
  case True
  then show ?thesis by (simp add: matches_empty)
next
  case False
  with assms show ?thesis
    by (simp add: matches_fst wf_pkg_preserves scanned_preserves)
qed

lemma scan_None: "None \<in> set vs \<Longrightarrow> scan args rc vs = 0"
  by (induction args rc vs rule: scan.induct) auto

lemma scan_Some:
  "scan args rc (map Some fs) =
     (if \<exists>t\<in>set args. \<exists>f\<in>set fs. sublist t (case_lower f) then 1 else rc)"
  by (induction fs arbitrary: rc) (auto simp: COMPARE_for_eq)

lemma scan_one: "None \<notin> set vs \<Longrightarrow> scan args 1 vs = 1"
  by (induction args "1::int" vs rule: scan.induct) (auto simp: COMPARE_for_eq)

lemma scan_hit:
  "Some v \<in> set vs \<Longrightarrow> t \<in> set args \<Longrightarrow> sublist t (case_lower v) \<Longrightarrow> None \<notin> set vs \<Longrightarrow>
   scan args rc vs = 1"
proof (induction args rc vs rule: scan.induct)
  case (3 args rc w vs)
  show ?case
  proof (cases "\<exists>a\<in>set args. sublist a (case_lower w)")
    case True
    with 3 show ?thesis by (simp add: COMPARE_for_eq scan_one)
  next
    case False
    with 3 show ?thesis by (auto simp: COMPARE_for_eq)
  qed
qed simp_all

lemma scan_miss:
  "None \<notin> set vs \<Longrightarrow> \<not> (\<exists>t\<in>set args. \<exists>v. Some v \<in> set vs \<and> sublist t (case_lower v)) \<Longrightarrow>
   scan args rc vs = rc"
proof (induction args rc vs rule: scan.induct)
  case (3 args rc w vs)
  then have "COMPARE_for (case_lower w) args rc = rc"
    by (auto simp: COMPARE_for_eq)
  with 3 show ?case by auto
qed simp_all

lemma scan_eq:
  "scan args 0 vs =
     (if None \<in> set vs then 0
      else if \<exists>t\<in>set args. \<exists>v. Some v \<in> set vs \<and> sublist t (case_lower v) then 1 else 0)"
proof (cases "None \<in> set vs")
  case True
  then show ?thesis by (simp add: scan_None)
next
  case False
  show ?thesis
  proof (cases "\<exists>t\<in>set args. \<exists>v. Some v \<in> set vs \<and> sublist t (case_lower v)")
    case True
    then obtain t v where "t \<in> set args" "Some v \<in> set vs" "sublist t (case_lower v)"
      by blast
    with False have "scan args 0 vs = 1" by (simp add: scan_hit [of v vs t])
    with False True show ?thesis by simp
  next
    case miss: False
    with False have "scan args 0 vs = 0" by (rule scan_miss)
    with False miss show ?thesis by simp
  qed
qed

lemma iterate_eq:
  assumes "\<forall>pkg\<in>set it. wf_pkg h0 pkg" "preserves h0 h"
  shows "\<exists>h'. preserves h0 h' \<and>
     iterate pn opts args hl tx it (h, out, js) =
       (h',
        (if opt_json opts \<noteq> 0 then out
         else out @ concat (map (\<lambda>pkg. display_package h0 pkg hl tx)
                (filter (\<lambda>pkg. fst (matches pn h0 args pkg) \<noteq> 0) it))),
        (if opt_json opts \<noteq> 0
         then js @ map (\<lambda>pkg. JSONObject (json_pkg h0 pkg))
                (filter (\<lambda>pkg. fst (matches pn h0 args pkg) \<noteq> 0) it)
         else js))"
  using assms
proof (induction it arbitrary: h out js)
  case Nil
  then show ?case by simp
next
  case (Cons pkg it)
  obtain rc h1 where m: "matches pn h args pkg = (rc, h1)" by (cases "matches pn h args pkg")
  from Cons.prems have wf0: "wf_pkg h0 pkg" by simp
  with Cons.prems have wf: "wf_pkg h pkg" by (simp add: wf_pkg_preserves)
  from matches_preserves[OF wf, of pn args] m have p1: "preserves h h1" by simp
  with Cons.prems have p01: "preserves h0 h1" by (blast intro: preserves_trans)
  from matches_fst_preserves[OF Cons.prems(2) wf0, of pn args] m
  have rc: "fst (matches pn h0 args pkg) = rc" by simp
  from Cons.prems have wfs: "\<forall>pkg\<in>set it. wf_pkg h0 pkg" by simp
  note IH = Cons.IH[OF wfs p01]
  show ?case
    using IH[of out js] IH[of out "add_package_to_json h1 pkg js"]
      IH[of "out @ display_package h1 pkg hl tx" js]
    by (auto simp: m rc add_package_to_json_def display_package_preserves[OF p01 wf0]
        json_pkg_preserves[OF p01 wf0])
qed

lemma takeWhile_shorter: "x \<in> set xs \<Longrightarrow> \<not> P x \<Longrightarrow> length (takeWhile P xs) < length xs"
  by (induction xs) auto

lemma takeWhile_present: "None \<notin> set vs \<Longrightarrow> takeWhile (\<lambda>v. v \<noteq> None) vs = vs"
proof (induction vs)
  case Nil
  then show ?case by simp
next
  case (Cons a vs)
  then show ?case by (cases a) simp_all
qed

section \<open>Lemmas: options and the run\<close>

lemma opt_json_fold:
  "opt_json (fold callback flags opts) = (if Flag_j \<in> set flags then 1 else opt_json opts)"
proof (induction flags arbitrary: opts)
  case Nil
  then show ?case by simp
next
  case (Cons f flags)
  then show ?case
    by (cases f) (simp_all add: setopt_nocolor_def setopt_nocache_def setopt_json_def)
qed

lemma opt_color_fold:
  "opt_color (fold callback flags opts) = (if Flag_n \<in> set flags then 0 else opt_color opts)"
proof (induction flags arbitrary: opts)
  case Nil
  then show ?case by simp
next
  case (Cons f flags)
  then show ?case
    by (cases f) (simp_all add: setopt_nocolor_def setopt_nocache_def setopt_json_def)
qed

lemma opt_cache_fold:
  "opt_cache (fold callback flags opts) = (if Flag_c \<in> set flags then 0 else opt_cache opts)"
proof (induction flags arbitrary: opts)
  case Nil
  then show ?case by simp
next
  case (Cons f flags)
  then show ?case
    by (cases f) (simp_all add: setopt_nocolor_def setopt_nocache_def setopt_json_def)
qed

lemma run_options_eq:
  "run_options flags =
     \<lparr>opt_color = (if Flag_n \<in> set flags then 0 else 1),
      opt_cache = (if Flag_c \<in> set flags then 0 else 1),
      opt_json = (if Flag_j \<in> set flags then 1 else 0)\<rparr>"
  by (rule options.equality)
    (simp_all add: run_options_def command_parse_def static_options_def
      opt_color_fold opt_cache_fold opt_json_fold)

lemma main_stdout:
  assumes "\<forall>pkg\<in>set (packages reg). wf_pkg h pkg"
  shows "stdout (main pn flags argv reg h) =
     (if Flag_j \<in> set flags
      then [Printf ''\<newline>'',
            Puts_pretty (JSONArray (map (\<lambda>pkg. JSONObject (json_pkg h pkg))
              (filter (\<lambda>pkg. fst (matches pn h (map case_lower argv) pkg) \<noteq> 0) (packages reg))))]
      else Printf ''\<newline>'' #
           concat (map (\<lambda>pkg. display_package h pkg
                      (if Flag_n \<in> set flags then CC_FG_NONE else CC_FG_DARK_CYAN)
                      (if Flag_n \<in> set flags then CC_FG_NONE else CC_FG_DARK_GRAY))
              (filter (\<lambda>pkg. fst (matches pn h (map case_lower argv) pkg) \<noteq> 0) (packages reg))))"
proof -
  let ?opts = "run_options flags"
  let ?hl = "if opt_color ?opts \<noteq> 0 then CC_FG_DARK_CYAN else CC_FG_NONE"
  let ?tx = "if opt_color ?opts \<noteq> 0 then CC_FG_DARK_GRAY else CC_FG_NONE"
  from iterate_eq [OF assms preserves_refl, of pn ?opts "map case_lower argv" ?hl ?tx
      "[Printf ''\<newline>'']" "[]"]
  obtain h' where "iterate pn ?opts (map case_lower argv) ?hl ?tx (packages reg)
       (h, [Printf ''\<newline>''], []) =
       (h',
        (if opt_json ?opts \<noteq> 0 then [Printf ''\<newline>'']
         else [Printf ''\<newline>''] @ concat (map (\<lambda>pkg. display_package h pkg ?hl ?tx)
                (filter (\<lambda>pkg. fst (matches pn h (map case_lower argv) pkg) \<noteq> 0) (packages reg)))),
        (if opt_json ?opts \<noteq> 0
         then [] @ map (\<lambda>pkg. JSONObject (json_pkg h pkg))
                (filter (\<lambda>pkg. fst (matches pn h (map case_lower argv) pkg) \<noteq> 0) (packages reg))
         else []))"
    by blast
  then show ?thesis
    by (simp add: main_def Let_def run_options_eq)
qed

lemma json_pkg_present:
  "load h (wiki_package_get_repo pkg) = Some r \<Longrightarrow> load h (wiki_package_get_href pkg) = Some u \<Longrightarrow>
   load h (wiki_package_get_description pkg) = Some d \<Longrightarrow>
   load h (wiki_package_get_category pkg) = Some c \<Longrightarrow>
   json_pkg h pkg =
     [(''repo'', JSONString r), (''href'', JSONString u), (''description'', JSONString d),
      (''category'', JSONString c)]"
  by (simp add: json_pkg_def json_object_set_string_def)

lemma display_package_present:
  "load h (wiki_package_get_repo pkg) = Some r \<Longrightarrow> load h (wiki_package_get_href pkg) = Some u \<Longrightarrow>
   load h (wiki_package_get_description pkg) = Some d \<Longrightarrow>
   display_package h pkg hl tx =
     [Cc_fprintf hl (''  '' @ r @ ''\<newline>''), Printf ''  url: '', Cc_fprintf tx (u @ ''\<newline>''),
      Printf ''  desc: '', Cc_fprintf tx (d @ ''\<newline>''), Printf ''\<newline>'']"
  by (simp add: display_package_def printf_s_def)

lemma iterate_opt_json:
  "opt_json opts = opt_json opts' \<Longrightarrow>
   iterate pn opts args hl tx it st = iterate pn opts' args hl tx it st"
proof (induction it arbitrary: st)
  case Nil
  then show ?case by simp
next
  case (Cons pkg it)
  obtain h out js where st: "st = (h, out, js)" by (cases st)
  from Cons show ?case by (simp add: st split: prod.splits)
qed

section \<open>Lemmas: the concrete inputs\<close>

lemmas example_defs = example_heap_def bar_pkg_def baz_pkg_def nodesc_pkg_def heap_of_def
  wf_pkg_def allocated_def scanned_def load_def short_name_def

lemma lower_bar: "case_lower ''bar'' = ''bar''"
  by code_simp

lemma lower_example:
  "case_lower ''foo/bar'' = ''foo/bar''"
  "case_lower ''https://x/bar'' = ''https://x/bar''"
  "case_lower ''A bar tool'' = ''a bar tool''"
  by code_simp+

lemma upper_baz: "case_upper ''baz'' = ''BAZ''"
  by code_simp

lemma lower_baz:
  "case_lower ''BAZ'' = ''baz''" "case_lower ''baz'' = ''baz''" "case_lower ''Baz'' = ''baz''"
  by code_simp+

section \<open>The matcher's claims\<close>

text \<open>
  Claim C2. For a non-empty query list, a record with one of the four scanned values
  (short name, description, repo, href) absent does not match, whatever the other values
  are and whether or not an earlier value matched. The scan stops at the absent value:
  \<open>matches\<close> has copied the values before it and no later one, so the memory has grown
  by one string for each value before the first absent one, fewer than four.
\<close>

theorem matches_null_field:
  assumes "wf_pkg h pkg" and "args \<noteq> []" and "None \<in> set (scanned pn h pkg)"
  shows "fst (matches pn h args pkg) = 0 \<and>
         brk (snd (matches pn h args pkg)) =
           brk h + length (takeWhile (\<lambda>v. v \<noteq> None) (scanned pn h pkg)) \<and>
         length (takeWhile (\<lambda>v. v \<noteq> None) (scanned pn h pkg)) < 4"
proof -
  from assms have "fst (matches pn h args pkg) = 0"
    by (simp add: matches_fst scan_None)
  moreover from assms have "brk (snd (matches pn h args pkg)) =
      brk h + length (takeWhile (\<lambda>v. v \<noteq> None) (scanned pn h pkg))"
    by (simp add: matches_brk)
  moreover have "length (takeWhile (\<lambda>v. v \<noteq> None) (scanned pn h pkg)) < 4"
  proof -
    from assms(3) have "length (takeWhile (\<lambda>v. v \<noteq> None) (scanned pn h pkg))
        < length (scanned pn h pkg)"
      by (rule takeWhile_shorter) simp
    then show ?thesis by (simp add: scanned_def)
  qed
  ultimately show ?thesis by simp
qed

text \<open>
  The record without a description, queried for \<^verbatim>\<open>bar\<close>: its short name \<^verbatim>\<open>bar\<close> contains
  the term, the description is absent, the result is 0 and one string was copied.
\<close>

theorem matches_null_field_witness:
  "wf_pkg example_heap nodesc_pkg \<and> [''bar''] \<noteq> [] \<and>
   scanned short_name example_heap nodesc_pkg =
     [Some ''bar'', None, Some ''foo/bar'', Some ''https://x/bar''] \<and>
   sublist ''bar'' (case_lower ''bar'') \<and>
   fst (matches short_name example_heap [''bar''] nodesc_pkg) = 0 \<and>
   brk (snd (matches short_name example_heap [''bar''] nodesc_pkg)) = brk example_heap + 1"
  using matches_null_field [of example_heap nodesc_pkg "[''bar'']" short_name]
  by (simp add: example_defs lower_bar)

text \<open>
  Claim C3, as stated, fails: the scan does not end at the field where a term matches. The
  record without a description has the short name \<^verbatim>\<open>bar\<close>, which contains the term
  \<^verbatim>\<open>bar\<close>, yet the absent description makes the result 0; with the description present
  the same query matches.
\<close>

theorem matches_short_circuit_counterexample:
  "scanned short_name example_heap nodesc_pkg =
     [Some ''bar'', None, Some ''foo/bar'', Some ''https://x/bar''] \<and>
   sublist ''bar'' (case_lower ''bar'') \<and>
   fst (matches short_name example_heap [''bar''] nodesc_pkg) = 0 \<and>
   fst (matches short_name example_heap [''bar''] bar_pkg) = 1"
proof -
  have wf: "wf_pkg example_heap nodesc_pkg" "wf_pkg example_heap bar_pkg"
    by (simp_all add: example_defs)
  have s1: "scanned short_name example_heap nodesc_pkg =
     [Some ''bar'', None, Some ''foo/bar'', Some ''https://x/bar'']"
    by (simp add: example_defs)
  have s2: "scanned short_name example_heap bar_pkg =
     [Some ''bar'', Some ''A bar tool'', Some ''foo/bar'', Some ''https://x/bar'']"
    by (simp add: example_defs)
  show ?thesis
    by (simp add: matches_fst wf s1 s2 lower_bar COMPARE_for_eq)
qed

text \<open>
  Claim C3, amended. For a non-empty query list the four values are scanned in the fixed
  order short name, description, repo, href, and the scan goes on after a field where a
  term matches. Once some term is a substring of a lowercased field, the result is a
  match whatever the other fields contain, as long as all four values are present; if one
  of the four is absent the result is no match. When all four are present, all four have
  been copied and compared; in every case the values copied are those before the first
  absent one in the fixed order.
\<close>

theorem matches_after_hit:
  assumes "wf_pkg h pkg" and "args \<noteq> []"
    and "Some v \<in> set (scanned pn h pkg)" and "t \<in> set args" and "sublist t (case_lower v)"
  shows "fst (matches pn h args pkg) = (if None \<in> set (scanned pn h pkg) then 0 else 1) \<and>
         (None \<notin> set (scanned pn h pkg) \<longrightarrow> brk (snd (matches pn h args pkg)) = brk h + 4) \<and>
         brk (snd (matches pn h args pkg)) =
           brk h + length (takeWhile (\<lambda>v. v \<noteq> None) (scanned pn h pkg))"
proof (cases "None \<in> set (scanned pn h pkg)")
  case True
  with assms show ?thesis by (simp add: matches_fst matches_brk scan_None)
next
  case False
  then have "takeWhile (\<lambda>v. v \<noteq> None) (scanned pn h pkg) = scanned pn h pkg"
    by (rule takeWhile_present)
  then have "length (takeWhile (\<lambda>v. v \<noteq> None) (scanned pn h pkg)) = 4"
    by (simp add: scanned_def)
  with assms False show ?thesis
    by (simp add: matches_fst matches_brk scan_hit [of v _ t])
qed

text \<open>The record of the spec's scenario, queried for \<^verbatim>\<open>bar\<close>.\<close>

theorem matches_after_hit_witness:
  "wf_pkg example_heap bar_pkg \<and> [''bar''] \<noteq> [] \<and>
   Some ''bar'' \<in> set (scanned short_name example_heap bar_pkg) \<and>
   ''bar'' \<in> set [''bar''] \<and> sublist ''bar'' (case_lower ''bar'') \<and>
   None \<notin> set (scanned short_name example_heap bar_pkg) \<and>
   fst (matches short_name example_heap [''bar''] bar_pkg) = 1 \<and>
   brk (snd (matches short_name example_heap [''bar''] bar_pkg)) = brk example_heap + 4"
  using matches_after_hit [of example_heap bar_pkg "[''bar'']" "''bar''" short_name "''bar''"]
  by (simp add: example_defs lower_bar)

text \<open>
  Claim C4. With no query term \<open>matches\<close> returns 1. With at least one term and the four
  scanned values present, it returns 1 if some term is a substring (\<^const>\<open>sublist\<close>) of
  the lowercased short name, description, repo or href, and 0 otherwise.
\<close>

theorem matches_iff_substring:
  "fst (matches pn h [] pkg) = 1 \<and>
   (wf_pkg h pkg \<and> args \<noteq> [] \<and> scanned pn h pkg = [Some n, Some d, Some r, Some u] \<longrightarrow>
    fst (matches pn h args pkg) =
      (if \<exists>t\<in>set args. \<exists>f\<in>{n, d, r, u}. sublist t (case_lower f) then 1 else 0))"
proof -
  have "fst (matches pn h args pkg) =
      (if \<exists>t\<in>set args. \<exists>f\<in>{n, d, r, u}. sublist t (case_lower f) then 1 else 0)"
    if "wf_pkg h pkg" "args \<noteq> []" "scanned pn h pkg = [Some n, Some d, Some r, Some u]"
  proof -
    have "scan args 0 (map Some [n, d, r, u]) =
        (if \<exists>t\<in>set args. \<exists>f\<in>set [n, d, r, u]. sublist t (case_lower f) then 1 else 0)"
      by (rule scan_Some)
    with that show ?thesis by (simp add: matches_fst)
  qed
  then show ?thesis by (simp add: matches_empty)
qed

text \<open>
  The record of the spec's scenario, queried for \<^verbatim>\<open>zzz\<close> or \<^verbatim>\<open>tool\<close>: the description
  contains the second term.
\<close>

theorem matches_iff_substring_witness:
  "fst (matches short_name example_heap [] bar_pkg) = 1 \<and>
   wf_pkg example_heap bar_pkg \<and> [''zzz'', ''tool''] \<noteq> [] \<and>
   scanned short_name example_heap bar_pkg =
     [Some ''bar'', Some ''A bar tool'', Some ''foo/bar'', Some ''https://x/bar''] \<and>
   sublist ''tool'' (case_lower ''A bar tool'') \<and>
   fst (matches short_name example_heap [''zzz'', ''tool''] bar_pkg) = 1"
  using matches_iff_substring [of short_name example_heap bar_pkg "[''zzz'', ''tool'']"
      "''bar''" "''A bar tool''" "''foo/bar''" "''https://x/bar''"]
  by (simp add: example_defs lower_bar lower_example sublist_code)

text \<open>
  Claim C5. Matching through \<open>main\<close> is case-insensitive. \<open>main\<close> lowercases every query
  term before the loop and \<open>COMPARE\<close> lowercases each field's copy, so for a query that
  holds the uppercased form of a term the result is decided by the lowercased terms and
  the lowercased field values: no match when a scanned value is absent, and otherwise a
  match exactly when some lowercased term is a substring of some lowercased value. The
  uppercased form and the term itself give the same result of \<open>matches\<close> and the same
  run.
\<close>

theorem query_case_insensitive:
  assumes "wf_pkg h pkg"
  shows "fst (matches pn h (map case_lower (xs @ case_upper t # ys)) pkg) =
           (if None \<in> set (scanned pn h pkg) then 0
            else if \<exists>q\<in>set (xs @ t # ys). \<exists>v. Some v \<in> set (scanned pn h pkg) \<and>
                      sublist (case_lower q) (case_lower v)
                 then 1 else 0) \<and>
         matches pn h (map case_lower (xs @ case_upper t # ys)) pkg =
           matches pn h (map case_lower (xs @ t # ys)) pkg \<and>
         main pn flags (xs @ case_upper t # ys) reg h = main pn flags (xs @ t # ys) reg h"
proof -
  have eq: "map case_lower (xs @ case_upper t # ys) = map case_lower (xs @ t # ys)"
    by (simp add: case_lower_upper)
  have ne: "map case_lower (xs @ t # ys) \<noteq> []" by simp
  have "fst (matches pn h (map case_lower (xs @ t # ys)) pkg) =
      scan (map case_lower (xs @ t # ys)) 0 (scanned pn h pkg)"
    using assms ne by (rule matches_fst)
  also have "\<dots> = (if None \<in> set (scanned pn h pkg) then 0
            else if \<exists>q\<in>set (xs @ t # ys). \<exists>v. Some v \<in> set (scanned pn h pkg) \<and>
                      sublist (case_lower q) (case_lower v)
                 then 1 else 0)"
    unfolding scan_eq by (simp add: image_iff bex_Un)
  finally have c1: "fst (matches pn h (map case_lower (xs @ t # ys)) pkg) =
      (if None \<in> set (scanned pn h pkg) then 0
       else if \<exists>q\<in>set (xs @ t # ys). \<exists>v. Some v \<in> set (scanned pn h pkg) \<and>
                 sublist (case_lower q) (case_lower v)
            then 1 else 0)" .
  have c3: "main pn flags (xs @ case_upper t # ys) reg h = main pn flags (xs @ t # ys) reg h"
    by (simp add: main_def case_lower_upper)
  show ?thesis
    unfolding eq by (intro conjI c1 refl c3)
qed

text \<open>
  The record with capital letters, whose repo is \<^verbatim>\<open>Foo/Baz\<close>: the query \<^verbatim>\<open>BAZ\<close>, the
  uppercased form of \<^verbatim>\<open>baz\<close>, matches it, as \<^verbatim>\<open>baz\<close> does.
\<close>

theorem query_case_insensitive_witness:
  "wf_pkg example_heap baz_pkg \<and> case_upper ''baz'' = ''BAZ'' \<and>
   scanned short_name example_heap baz_pkg =
     [Some ''Baz'', Some ''A BAZ Tool'', Some ''Foo/Baz'', Some ''https://x/Baz''] \<and>
   sublist (case_lower ''baz'') (case_lower ''Baz'') \<and>
   fst (matches short_name example_heap (map case_lower [''BAZ'']) baz_pkg) = 1 \<and>
   fst (matches short_name example_heap (map case_lower [''baz'']) baz_pkg) = 1"
proof -
  have wf: "wf_pkg example_heap baz_pkg"
    by (simp add: example_defs)
  have s: "scanned short_name example_heap baz_pkg =
     [Some ''Baz'', Some ''A BAZ Tool'', Some ''Foo/Baz'', Some ''https://x/Baz'']"
    by (simp add: example_defs)
  have hit: "\<exists>v. Some v \<in> set (scanned short_name example_heap baz_pkg) \<and>
      sublist (case_lower ''baz'') (case_lower v)"
    by (rule exI [of _ "''Baz''"]) (simp add: s lower_baz)
  from query_case_insensitive [OF wf, of short_name "[]" "''baz''" "[]"]
  show ?thesis
    using wf s hit by (simp add: upper_baz lower_baz)
qed

section \<open>The renderer's claims\<close>

text \<open>
  Claim C6. Matching leaves the rendered values as they were: \<open>matches\<close> lowercases
  copies only, so after the call each of the record's four strings is what it was before,
  and the JSON object and the text block built from the record after the call are the
  ones its strings gave before the call. For present fields the object holds each string
  under its key and the block prints each string, both byte for byte.
\<close>

theorem matching_keeps_rendered_values:
  assumes "wf_pkg h pkg" and "h' = snd (matches pn h args pkg)"
  shows "load h' (wiki_package_get_repo pkg) = load h (wiki_package_get_repo pkg) \<and>
         load h' (wiki_package_get_href pkg) = load h (wiki_package_get_href pkg) \<and>
         load h' (wiki_package_get_description pkg) = load h (wiki_package_get_description pkg) \<and>
         load h' (wiki_package_get_category pkg) = load h (wiki_package_get_category pkg) \<and>
         add_package_to_json h' pkg json_list = json_list @ [JSONObject (json_pkg h pkg)] \<and>
         display_package h' pkg hl tx = display_package h pkg hl tx \<and>
         (load h (wiki_package_get_repo pkg) = Some r \<and> load h (wiki_package_get_href pkg) = Some u \<and>
          load h (wiki_package_get_description pkg) = Some d \<longrightarrow>
            (load h (wiki_package_get_category pkg) = Some c \<longrightarrow>
             add_package_to_json h' pkg json_list =
               json_list @ [JSONObject [(''repo'', JSONString r), (''href'', JSONString u),
                 (''description'', JSONString d), (''category'', JSONString c)]]) \<and>
            display_package h' pkg hl tx =
              [Cc_fprintf hl (''  '' @ r @ ''\<newline>''), Printf ''  url: '',
               Cc_fprintf tx (u @ ''\<newline>''), Printf ''  desc: '',
               Cc_fprintf tx (d @ ''\<newline>''), Printf ''\<newline>''])"
proof -
  from assms have p: "preserves h h'"
    by (simp add: matches_preserves)
  from assms(1) have a: "allocated h (wiki_package_get_repo pkg)"
    "allocated h (wiki_package_get_href pkg)" "allocated h (wiki_package_get_description pkg)"
    "allocated h (wiki_package_get_category pkg)"
    by (simp_all add: wf_pkg_def)
  have j: "json_pkg h' pkg = json_pkg h pkg"
    using p assms(1) by (rule json_pkg_preserves)
  have d: "display_package h' pkg hl tx = display_package h pkg hl tx"
    using p assms(1) by (rule display_package_preserves)
  show ?thesis
    by (simp add: load_preserves [OF p] a j d add_package_to_json_def json_pkg_present
        display_package_present)
qed

text \<open>
  The record with capital letters matches the term \<^verbatim>\<open>baz\<close> through its lowercased copies
  and is rendered with its capitals.
\<close>

theorem matching_keeps_rendered_values_witness:
  "wf_pkg example_heap baz_pkg \<and>
   fst (matches short_name example_heap [''baz''] baz_pkg) = 1 \<and>
   load (snd (matches short_name example_heap [''baz''] baz_pkg)) (wiki_package_get_repo baz_pkg)
     = Some ''Foo/Baz'' \<and>
   add_package_to_json (snd (matches short_name example_heap [''baz''] baz_pkg)) baz_pkg [] =
     [JSONObject [(''repo'', JSONString ''Foo/Baz''), (''href'', JSONString ''https://x/Baz''),
        (''description'', JSONString ''A BAZ Tool''), (''category'', JSONString ''Tools'')]] \<and>
   display_package (snd (matches short_name example_heap [''baz''] baz_pkg)) baz_pkg
       CC_FG_DARK_CYAN CC_FG_DARK_GRAY =
     [Cc_fprintf CC_FG_DARK_CYAN ''  Foo/Baz\<newline>'', Printf ''  url: '',
      Cc_fprintf CC_FG_DARK_GRAY ''https://x/Baz\<newline>'', Printf ''  desc: '',
      Cc_fprintf CC_FG_DARK_GRAY ''A BAZ Tool\<newline>'', Printf ''\<newline>'']"
proof -
  have wf: "wf_pkg example_heap baz_pkg"
    by (simp add: example_defs)
  have m: "fst (matches short_name example_heap [''baz''] baz_pkg) = 1"
    by code_simp
  from matching_keeps_rendered_values [OF wf refl, of short_name "[''baz'']" "[]"
      CC_FG_DARK_CYAN CC_FG_DARK_GRAY "''Foo/Baz''" "''https://x/Baz''" "''A BAZ Tool''" "''''"]
  show ?thesis
    using wf m
    by (simp add: example_defs json_pkg_def json_object_set_string_def display_package_def
        printf_s_def)
qed

text \<open>
  Claim C7, as stated, fails: the JSON array is not all that a run in JSON mode writes.
  Line 204 writes a newline in both modes, before the loop. With no match the output is
  that newline and then the empty array.
\<close>

theorem json_mode_output_counterexample:
  "fst (matches short_name example_heap (map case_lower [''zzz'']) bar_pkg) = 0 \<and>
   stdout (main short_name [Flag_j] [''zzz''] \<lparr>fetch_ok = True, packages = [bar_pkg]\<rparr> example_heap)
     = [Printf ''\<newline>'', Puts_pretty (JSONArray [])] \<and>
   stdout (main short_name [Flag_j] [''zzz''] \<lparr>fetch_ok = True, packages = [bar_pkg]\<rparr> example_heap)
     \<noteq> [Puts_pretty (JSONArray [])]"
proof -
  have wf: "wf_pkg example_heap bar_pkg"
    by (simp add: example_defs)
  have m: "fst (matches short_name example_heap (map case_lower [''zzz'']) bar_pkg) = 0"
    by code_simp
  show ?thesis
    using m by (simp add: main_stdout wf)
qed

text \<open>
  Claim C7, amended. In JSON mode (\<^verbatim>\<open>-j\<close> among the flags) the run first writes a newline;
  the matched records, in the registry's order, are gathered into one array of objects,
  which is serialised once, after the loop, and written with a newline after it; nothing
  else is written. The object of a record whose four fields are present has the keys
  \<^verbatim>\<open>repo\<close>, \<^verbatim>\<open>href\<close>, \<^verbatim>\<open>description\<close>, \<^verbatim>\<open>category\<close>, in this order, each with the field's
  string. With no match the array is empty.
\<close>

theorem json_mode_output:
  assumes "\<forall>pkg\<in>set (packages reg). wf_pkg h pkg" and "Flag_j \<in> set flags"
  shows "stdout (main pn flags argv reg h) =
           [Printf ''\<newline>'',
            Puts_pretty (JSONArray (map (\<lambda>pkg. JSONObject (json_pkg h pkg))
              (filter (\<lambda>pkg. fst (matches pn h (map case_lower argv) pkg) \<noteq> 0)
                 (packages reg))))] \<and>
         (load h (wiki_package_get_repo p) = Some r \<and> load h (wiki_package_get_href p) = Some u \<and>
          load h (wiki_package_get_description p) = Some d \<and>
          load h (wiki_package_get_category p) = Some c \<longrightarrow>
            json_pkg h p =
              [(''repo'', JSONString r), (''href'', JSONString u),
               (''description'', JSONString d), (''category'', JSONString c)])"
  using assms by (simp add: main_stdout json_pkg_present)

text \<open>
  Three records queried for \<^verbatim>\<open>BA\<close> in JSON mode: the one without a description is left
  out, the other two appear in the registry's order.
\<close>

theorem json_mode_output_witness:
  "wf_pkg example_heap nodesc_pkg \<and> wf_pkg example_heap baz_pkg \<and>
   wf_pkg example_heap bar_pkg \<and>
   Flag_j \<in> set [Flag_j] \<and>
   stdout (main short_name [Flag_j] [''BA'']
       \<lparr>fetch_ok = True, packages = [nodesc_pkg, baz_pkg, bar_pkg]\<rparr> example_heap) =
     [Printf ''\<newline>'',
      Puts_pretty (JSONArray
        [JSONObject [(''repo'', JSONString ''Foo/Baz''), (''href'', JSONString ''https://x/Baz''),
           (''description'', JSONString ''A BAZ Tool''), (''category'', JSONString ''Tools'')],
         JSONObject [(''repo'', JSONString ''foo/bar''), (''href'', JSONString ''https://x/bar''),
           (''description'', JSONString ''A bar tool''), (''category'', JSONString ''tools'')]])]"
proof -
  have wf: "\<forall>pkg\<in>set [nodesc_pkg, baz_pkg, bar_pkg]. wf_pkg example_heap pkg"
    by (simp add: example_defs)
  then have wf': "\<forall>pkg\<in>set (packages \<lparr>fetch_ok = True, packages = [nodesc_pkg, baz_pkg, bar_pkg]\<rparr>).
      wf_pkg example_heap pkg"
    by simp
  have fj: "Flag_j \<in> set [Flag_j]" by simp
  have m: "fst (matches short_name example_heap (map case_lower [''BA'']) nodesc_pkg) = 0"
    "fst (matches short_name example_heap (map case_lower [''BA'']) baz_pkg) = 1"
    "fst (matches short_name example_heap (map case_lower [''BA'']) bar_pkg) = 1"
    by code_simp+
  have j: "json_pkg example_heap baz_pkg =
      [(''repo'', JSONString ''Foo/Baz''), (''href'', JSONString ''https://x/Baz''),
       (''description'', JSONString ''A BAZ Tool''), (''category'', JSONString ''Tools'')]"
    "json_pkg example_heap bar_pkg =
      [(''repo'', JSONString ''foo/bar''), (''href'', JSONString ''https://x/bar''),
       (''description'', JSONString ''A bar tool''), (''category'', JSONString ''tools'')]"
    by (simp_all add: json_pkg_present example_defs)
  from json_mode_output [OF wf' fj, of short_name "[''BA'']"]
  show ?thesis
    using wf m j by simp
qed

text \<open>
  Claim C8. In text mode (no \<^verbatim>\<open>-j\<close>) the run writes a newline and then one block for each
  matched record, in the registry's order. A block is the repo in the highlight colour on
  a line of its own, \<^verbatim>\<open>url: \<close> and the href, \<^verbatim>\<open>desc: \<close> and the description, and an empty
  line; each of the three lines is indented by two spaces. \<^verbatim>\<open>-n\<close> turns both colours off.
\<close>

theorem text_mode_output:
  assumes "\<forall>pkg\<in>set (packages reg). wf_pkg h pkg" and "Flag_j \<notin> set flags"
    and "hl = (if Flag_n \<in> set flags then CC_FG_NONE else CC_FG_DARK_CYAN)"
    and "tx = (if Flag_n \<in> set flags then CC_FG_NONE else CC_FG_DARK_GRAY)"
  shows "stdout (main pn flags argv reg h) =
           Printf ''\<newline>'' #
           concat (map (\<lambda>pkg. display_package h pkg hl tx)
              (filter (\<lambda>pkg. fst (matches pn h (map case_lower argv) pkg) \<noteq> 0)
                 (packages reg))) \<and>
         (load h (wiki_package_get_repo p) = Some r \<and> load h (wiki_package_get_href p) = Some u \<and>
          load h (wiki_package_get_description p) = Some d \<longrightarrow>
            display_package h p hl tx =
              [Cc_fprintf hl (''  '' @ r @ ''\<newline>''), Printf ''  url: '',
               Cc_fprintf tx (u @ ''\<newline>''), Printf ''  desc: '',
               Cc_fprintf tx (d @ ''\<newline>''), Printf ''\<newline>''])"
  using assms by (simp add: main_stdout display_package_present)

text \<open>The same three records and query in text mode.\<close>

theorem text_mode_output_witness:
  "wf_pkg example_heap nodesc_pkg \<and> wf_pkg example_heap baz_pkg \<and>
   wf_pkg example_heap bar_pkg \<and>
   Flag_j \<notin> set [Flag_c] \<and>
   stdout (main short_name [Flag_c] [''BA'']
       \<lparr>fetch_ok = True, packages = [nodesc_pkg, baz_pkg, bar_pkg]\<rparr> example_heap) =
     [Printf ''\<newline>'',
      Cc_fprintf CC_FG_DARK_CYAN ''  Foo/Baz\<newline>'', Printf ''  url: '',
      Cc_fprintf CC_FG_DARK_GRAY ''https://x/Baz\<newline>'', Printf ''  desc: '',
      Cc_fprintf CC_FG_DARK_GRAY ''A BAZ Tool\<newline>'', Printf ''\<newline>'',
      Cc_fprintf CC_FG_DARK_CYAN ''  foo/bar\<newline>'', Printf ''  url: '',
      Cc_fprintf CC_FG_DARK_GRAY ''https://x/bar\<newline>'', Printf ''  desc: '',
      Cc_fprintf CC_FG_DARK_GRAY ''A bar tool\<newline>'', Printf ''\<newline>'']"
proof -
  have wf: "\<forall>pkg\<in>set [nodesc_pkg, baz_pkg, bar_pkg]. wf_pkg example_heap pkg"
    by (simp add: example_defs)
  then have wf': "\<forall>pkg\<in>set (packages \<lparr>fetch_ok = True, packages = [nodesc_pkg, baz_pkg, bar_pkg]\<rparr>).
      wf_pkg example_heap pkg"
    by simp
  have fj: "Flag_j \<notin> set [Flag_c]" by simp
  have m: "fst (matches short_name example_heap (map case_lower [''BA'']) nodesc_pkg) = 0"
    "fst (matches short_name example_heap (map case_lower [''BA'']) baz_pkg) = 1"
    "fst (matches short_name example_heap (map case_lower [''BA'']) bar_pkg) = 1"
    by code_simp+
  have d: "display_package example_heap baz_pkg CC_FG_DARK_CYAN CC_FG_DARK_GRAY =
     [Cc_fprintf CC_FG_DARK_CYAN ''  Foo/Baz\<newline>'', Printf ''  url: '',
      Cc_fprintf CC_FG_DARK_GRAY ''https://x/Baz\<newline>'', Printf ''  desc: '',
      Cc_fprintf CC_FG_DARK_GRAY ''A BAZ Tool\<newline>'', Printf ''\<newline>'']"
    "display_package example_heap bar_pkg CC_FG_DARK_CYAN CC_FG_DARK_GRAY =
     [Cc_fprintf CC_FG_DARK_CYAN ''  foo/bar\<newline>'', Printf ''  url: '',
      Cc_fprintf CC_FG_DARK_GRAY ''https://x/bar\<newline>'', Printf ''  desc: '',
      Cc_fprintf CC_FG_DARK_GRAY ''A bar tool\<newline>'', Printf ''\<newline>'']"
    by (simp_all add: display_package_def printf_s_def example_defs)
  from text_mode_output [OF wf' fj refl refl, of short_name "[''BA'']"]
  show ?thesis
    using wf m d by simp
qed

section \<open>Options, cache and exit status\<close>

text \<open>
  \<open>wiki_html_cache\<close> by itself. With \<open>opt_cache = 0\<close>, which is what \<open>setopt_nocache\<close>
  stores, it asks whether the cache has an entry but never reads it, and always makes the
  live fetch. Whenever a live fetch is made and succeeds, its payload is saved to the
  cache and returned. With caching enabled, an entry that exists and can be read is
  returned, and no request is made.
\<close>

lemma wiki_html_cache_contract:
  "opt_cache (setopt_nocache opts) = 0 \<and>
   (opt_cache opts = 0 \<longrightarrow>
      wiki_html_cache opts env = wiki_html_fetch env [Clib_cache_has_search] \<and>
      Clib_cache_read_search \<notin> set (snd (wiki_html_cache opts env)) \<and>
      Http_get \<in> set (snd (wiki_html_cache opts env))) \<and>
   (Http_get \<in> set (snd (wiki_html_cache opts env)) \<and> http_ok env \<and> http_data env = Some html \<longrightarrow>
      fst (wiki_html_cache opts env) = Some html \<and>
      Clib_cache_save_search html \<in> set (snd (wiki_html_cache opts env))) \<and>
   (opt_cache opts \<noteq> 0 \<and> clib_cache_has_search env \<and> clib_cache_read_search env = Some data \<longrightarrow>
      wiki_html_cache opts env = (Some data, [Clib_cache_has_search, Clib_cache_read_search]) \<and>
      Http_get \<notin> set (snd (wiki_html_cache opts env)))"
  by (auto simp: wiki_html_cache_def wiki_html_fetch_def setopt_nocache_def
      split: option.splits)

text \<open>
  A cache with a readable entry and a network that answers: with the cache skipped the
  live payload is fetched, saved and returned; with the defaults the cached entry is
  returned.
\<close>

lemma wiki_html_cache_contract_example:
  "opt_cache (setopt_nocache (run_options [])) = 0 \<and>
   wiki_html_cache (setopt_nocache (run_options [])) example_env =
     (Some ''live'', [Clib_cache_has_search, Http_get, Clib_cache_save_search ''live'']) \<and>
   opt_cache (run_options []) \<noteq> 0 \<and>
   wiki_html_cache (run_options []) example_env =
     (Some ''cached'', [Clib_cache_has_search, Clib_cache_read_search])"
  using wiki_html_cache_contract [of "run_options []" example_env "''live''" "''cached''"]
    wiki_html_cache_contract [of "setopt_nocache (run_options [])" example_env "''live''" "''cached''"]
  by (simp add: example_env_def run_options_eq setopt_nocache_def wiki_html_fetch_def)

text \<open>
  Claim C9 says that \<^verbatim>\<open>--skip-cache\<close> forces a live fetch that still writes the cache, and
  that with caching enabled a readable cache entry is returned without a request. That
  is what \<open>wiki_html_cache\<close> does, but no run calls it: its only call stands in the
  commented-out block of lines 181 to 191, under the note that caching is still to be
  implemented for the new registries. \<open>main\<close> fetches the registry whatever the cache
  holds, and \<open>opt_cache\<close> is read nowhere else: \<^verbatim>\<open>-c\<close> clears the option and the run stays
  the same. With the cache holding a readable entry, \<open>wiki_html_cache\<close> would return it
  with caching enabled and fetch and save with the cache skipped; the two runs are equal.
\<close>

theorem skip_cache_has_no_effect:
  "opt_cache (run_options flags) = (if Flag_c \<in> set flags then 0 else 1) \<and>
   main pn (Flag_c # flags) argv reg h = main pn flags argv reg h \<and>
   wiki_html_cache (run_options []) example_env =
     (Some ''cached'', [Clib_cache_has_search, Clib_cache_read_search]) \<and>
   wiki_html_cache (run_options [Flag_c]) example_env =
     (Some ''live'', [Clib_cache_has_search, Http_get, Clib_cache_save_search ''live'']) \<and>
   main short_name [] [''bar''] \<lparr>fetch_ok = True, packages = [bar_pkg]\<rparr> example_heap =
     main short_name [Flag_c] [''bar''] \<lparr>fetch_ok = True, packages = [bar_pkg]\<rparr> example_heap"
proof -
  have m: "main pn (Flag_c # flags) argv reg h = main pn flags argv reg h" for pn flags argv reg h
  proof -
    have "iterate pn (run_options (Flag_c # flags)) args hl tx it st =
        iterate pn (run_options flags) args hl tx it st" for args hl tx it st
      by (rule iterate_opt_json) (simp add: run_options_eq)
    then show ?thesis
      by (simp add: main_def Let_def run_options_eq)
  qed
  show ?thesis
    by (simp add: m [of short_name "[]"] m [of pn flags] run_options_eq example_env_def
        wiki_html_cache_def wiki_html_fetch_def)
qed

text \<open>
  Claim C10. With no flag the options of a run are colour on, cache on, JSON off. Each
  callback changes its own option only, so after the command line is parsed each option
  depends on its own flag alone: \<^verbatim>\<open>-n\<close> clears \<open>opt_color\<close>, \<^verbatim>\<open>-c\<close> clears \<open>opt_cache\<close>,
  \<^verbatim>\<open>-j\<close> sets \<open>opt_json\<close>.
\<close>

theorem default_options:
  "run_options [] = \<lparr>opt_color = 1, opt_cache = 1, opt_json = 0\<rparr> \<and>
   setopt_nocolor \<lparr>opt_color = a, opt_cache = b, opt_json = c\<rparr> =
     \<lparr>opt_color = 0, opt_cache = b, opt_json = c\<rparr> \<and>
   setopt_nocache \<lparr>opt_color = a, opt_cache = b, opt_json = c\<rparr> =
     \<lparr>opt_color = a, opt_cache = 0, opt_json = c\<rparr> \<and>
   setopt_json \<lparr>opt_color = a, opt_cache = b, opt_json = c\<rparr> =
     \<lparr>opt_color = a, opt_cache = b, opt_json = 1\<rparr> \<and>
   run_options flags =
     \<lparr>opt_color = (if Flag_n \<in> set flags then 0 else 1),
      opt_cache = (if Flag_c \<in> set flags then 0 else 1),
      opt_json = (if Flag_j \<in> set flags then 1 else 0)\<rparr>"
  by (simp add: run_options_eq setopt_nocolor_def setopt_nocache_def setopt_json_def)

text \<open>
  Claim C1 says that a failed fetch ends the run with an error message and a non-zero
  status, nothing rendered. \<open>main\<close> does not look at the outcome of the fetch: a run in
  JSON mode whose fetch failed and whose registry yields no package writes the newline
  and the empty array and returns 0; whatever the registry yields, the status is 0 and
  the run is the one of a successful fetch.
\<close>

theorem fetch_failure_not_fatal:
  "main short_name [Flag_j] [] \<lparr>fetch_ok = False, packages = []\<rparr> (heap_of []) =
     \<lparr>stdout = [Printf ''\<newline>'', Puts_pretty (JSONArray [])], status = 0\<rparr> \<and>
   status (main pn flags argv \<lparr>fetch_ok = False, packages = pkgs\<rparr> h) = 0 \<and>
   main pn flags argv \<lparr>fetch_ok = False, packages = pkgs\<rparr> h =
     main pn flags argv \<lparr>fetch_ok = True, packages = pkgs\<rparr> h"
  by (simp add: main_def Let_def run_options_eq split: prod.splits)

end
